theory Spec2Isabelle
  imports Complex_Main
begin

section \<open>JavaScript values used by the polling core\<close>

text \<open>
  A JavaScript number is modelled as an exact real, extended by the three special values
  the code can meet: \<open>NaN\<close> and the two infinities. Rounding of IEEE doubles and the
  sign of zero are not modelled; every comparison and every \<open>Math.min\<close>/\<open>Math.max\<close>
  the source performs is exact on these values.
\<close>

datatype jsnum = NaN | NegInf | Fin real | PosInf

text \<open>\<open>Math.min(a, b)\<close> and \<open>Math.max(a, b)\<close>: \<open>NaN\<close> if either argument is \<open>NaN\<close>.\<close>

fun Math_min :: "jsnum \<Rightarrow> jsnum \<Rightarrow> jsnum" where
  "Math_min NaN y = NaN"
| "Math_min x NaN = NaN"
| "Math_min NegInf y = NegInf"
| "Math_min x NegInf = NegInf"
| "Math_min PosInf y = y"
| "Math_min x PosInf = x"
| "Math_min (Fin a) (Fin b) = Fin (min a b)"

fun Math_max :: "jsnum \<Rightarrow> jsnum \<Rightarrow> jsnum" where
  "Math_max NaN y = NaN"
| "Math_max x NaN = NaN"
| "Math_max PosInf y = PosInf"
| "Math_max x PosInf = PosInf"
| "Math_max NegInf y = y"
| "Math_max x NegInf = x"
| "Math_max (Fin a) (Fin b) = Fin (max a b)"

text \<open>
  The arithmetic of the progress expressions: \<open>a + b\<close>, \<open>a * b\<close> and \<open>a / b\<close>.
  A zero divisor is read as \<open>+0\<close>; the source only ever divides by the literal 100.
\<close>

fun js_add :: "jsnum \<Rightarrow> jsnum \<Rightarrow> jsnum" where
  "js_add NaN y = NaN"
| "js_add x NaN = NaN"
| "js_add (Fin a) (Fin b) = Fin (a + b)"
| "js_add PosInf NegInf = NaN"
| "js_add NegInf PosInf = NaN"
| "js_add PosInf y = PosInf"
| "js_add NegInf y = NegInf"
| "js_add x PosInf = PosInf"
| "js_add x NegInf = NegInf"

definition js_sign :: "jsnum \<Rightarrow> real" where
  "js_sign x = (case x of NaN \<Rightarrow> 0 | NegInf \<Rightarrow> - 1 | PosInf \<Rightarrow> 1 | Fin a \<Rightarrow> sgn a)"

definition js_inf :: "real \<Rightarrow> jsnum" where
  "js_inf s = (if s = 0 then NaN else if 0 < s then PosInf else NegInf)"

fun js_mul :: "jsnum \<Rightarrow> jsnum \<Rightarrow> jsnum" where
  "js_mul NaN y = NaN"
| "js_mul x NaN = NaN"
| "js_mul (Fin a) (Fin b) = Fin (a * b)"
| "js_mul x y = js_inf (js_sign x * js_sign y)"

fun js_div :: "jsnum \<Rightarrow> jsnum \<Rightarrow> jsnum" where
  "js_div NaN y = NaN"
| "js_div x NaN = NaN"
| "js_div (Fin a) (Fin b) = (if b = 0 then js_inf (sgn a) else Fin (a / b))"
| "js_div (Fin a) y = Fin 0"
| "js_div x (Fin b) = js_inf (js_sign x * (if b < 0 then - 1 else 1))"
| "js_div x y = NaN"

text \<open>\<open>a <= b\<close> on numbers: false as soon as one side is \<open>NaN\<close>.\<close>

fun js_le :: "jsnum \<Rightarrow> jsnum \<Rightarrow> bool" where
  "js_le NaN y = False"
| "js_le x NaN = False"
| "js_le NegInf y = True"
| "js_le x PosInf = True"
| "js_le (Fin a) (Fin b) = (a \<le> b)"
| "js_le x y = False"

text \<open>
  A value of TypeScript's \<open>unknown\<close>, as far as \<open>typeof x === "string"\<close> can tell
  values apart.
\<close>

datatype unknown =
  JUndefined | JNull | JBoolean bool | JNumber jsnum | JString string | JObject

text \<open>
  \<open>String.prototype.toLowerCase\<close> on the ASCII range: the letters \<open>A\<close> to \<open>Z\<close> move
  to \<open>a\<close> to \<open>z\<close>, every other character stays.
\<close>

definition lower_char :: "char \<Rightarrow> char" where
  "lower_char c =
     (case map_of (zip ''ABCDEFGHIJKLMNOPQRSTUVWXYZ'' ''abcdefghijklmnopqrstuvwxyz'') c of
        Some l \<Rightarrow> l
      | None \<Rightarrow> c)"

definition toLowerCase :: "string \<Rightarrow> string" where
  "toLowerCase s = map lower_char s"

text \<open>\<^verbatim>\<open>function safeLower(x: unknown) { return typeof x === "string" ? x.toLowerCase() : "" }\<close>\<close>

fun safeLower :: "unknown \<Rightarrow> string" where
  "safeLower (JString s) = toLowerCase s"
| "safeLower x = ''''"

section \<open>The status poller\<close>

text \<open>
  The payload \<open>{ status: string; percent?: number }\<close> of the status endpoint. The
  \<open>status\<close> field is kept as \<open>unknown\<close>, which is what \<open>safeLower\<close> takes; an absent
  \<open>percent\<close> is \<open>None\<close>.
\<close>

record status_payload =
  raw_status :: unknown
  raw_percent :: "jsnum option"

text \<open>
  What \<open>await fetchStatus(jobId)\<close> gives the poller: the promise rejects (network error,
  a response that is not ok, a body that is not JSON) or resolves to a payload.
\<close>

datatype fetch_result = Rejected | Resolved status_payload

text \<open>
  The options of \<open>pollUntilDone\<close> that decide its control flow, with the defaults of the
  destructuring: \<open>requireRunning = false\<close>, \<open>maxConsecutiveErrors = 5\<close>. The interval
  only sets the length of the sleep and the debug sink only logs; both are left out.
\<close>

record poll_opts =
  requireRunning :: bool
  maxConsecutiveErrors :: int

definition default_opts :: poll_opts where
  "default_opts = \<lparr>requireRunning = False, maxConsecutiveErrors = 5\<rparr>"

text \<open>The loop's local variables \<open>errors\<close> and \<open>seenRunning\<close>.\<close>

record poll_state =
  errors :: int
  seenRunning :: bool

datatype poll_result = PollCompleted | PollAborted

text \<open>
  Where one pass through the loop body ends: at the sleep of line 108 (the loop goes on),
  at a \<open>return\<close>, or at a \<open>throw\<close> that leaves the function.
\<close>

datatype poll_outcome = Sleeping poll_state | Returned poll_result | Thrown string

text \<open>\<open>Math.max(0, Math.min(100, Number(raw.percent ?? 0)))\<close>; \<open>Number\<close> of a number is itself.\<close>

definition clampPercent :: "jsnum option \<Rightarrow> jsnum" where
  "clampPercent p =
     Math_max (Fin 0) (Math_min (Fin 100) (case p of None \<Rightarrow> Fin 0 | Some n \<Rightarrow> n))"

text \<open>The \<open>catch\<close> block of the loop, lines 99 to 106.\<close>

definition poll_catch :: "poll_opts \<Rightarrow> poll_state \<Rightarrow> poll_outcome" where
  "poll_catch opts st =
     (let st' = st\<lparr>errors := errors st + 1\<rparr>
      in if errors st' \<ge> maxConsecutiveErrors opts then Thrown ''Too many polling errors''
         else Sleeping st')"

text \<open>
  The \<open>try\<close>/\<open>catch\<close> of one iteration, lines 81 to 106, once the awaited fetch has
  settled. The tick callback runs on the caller's state \<open>'s\<close> before the status is
  examined. The \<open>throw\<close> of line 90 is inside the \<open>try\<close>, so it lands in the \<open>catch\<close>
  of line 99 like a failed fetch does.
\<close>

definition poll_body ::
  "poll_opts \<Rightarrow> (jsnum \<Rightarrow> string \<Rightarrow> 's \<Rightarrow> 's) \<Rightarrow> fetch_result \<Rightarrow> poll_state \<Rightarrow> 's
    \<Rightarrow> poll_outcome \<times> 's" where
  "poll_body opts onTick fr st s =
     (case fr of
        Rejected \<Rightarrow> (poll_catch opts st, s)
      | Resolved raw \<Rightarrow>
          (let status = safeLower (raw_status raw);
               percent = clampPercent (raw_percent raw);
               s' = onTick percent status s
           in if status = ''failed'' \<or> status = ''error'' then (poll_catch opts st, s')
              else
                (let st' = (if status = ''running'' then st\<lparr>seenRunning := True\<rparr> else st)
                 in if status = ''completed'' \<and> seenRunning st'
                    then (Returned PollCompleted, s')
                    else (Sleeping (st'\<lparr>errors := 0\<rparr>), s'))))"

text \<open>
  The \<open>while (true)\<close> loop, driven by what the environment delivers to each iteration:
  the value of \<open>abortRef.current\<close> read at the top of the loop and the outcome of the
  fetch. The loop has no exit of its own; when the observations run out it is still
  polling, which is the outcome \<open>Sleeping\<close> with the loop's variables.
\<close>

fun poll_loop ::
  "poll_opts \<Rightarrow> (jsnum \<Rightarrow> string \<Rightarrow> 's \<Rightarrow> 's) \<Rightarrow> poll_state \<Rightarrow> 's
    \<Rightarrow> (bool \<times> fetch_result) list \<Rightarrow> poll_outcome \<times> 's" where
  "poll_loop opts onTick st s [] = (Sleeping st, s)"
| "poll_loop opts onTick st s ((abort, fr) # rest) =
     (if abort then (Returned PollAborted, s)
      else (case poll_body opts onTick fr st s of
              (Sleeping st', s') \<Rightarrow> poll_loop opts onTick st' s' rest
            | (Returned r, s') \<Rightarrow> (Returned r, s')
            | (Thrown m, s') \<Rightarrow> (Thrown m, s')))"

text \<open>\<open>let errors = 0; let seenRunning = !requireRunning\<close>\<close>

definition poll_init :: "poll_opts \<Rightarrow> poll_state" where
  "poll_init opts = \<lparr>errors = 0, seenRunning = \<not> requireRunning opts\<rparr>"

definition pollUntilDone ::
  "poll_opts \<Rightarrow> (jsnum \<Rightarrow> string \<Rightarrow> 's \<Rightarrow> 's) \<Rightarrow> 's
    \<Rightarrow> (bool \<times> fetch_result) list \<Rightarrow> poll_outcome \<times> 's" where
  "pollUntilDone opts onTick s obs = poll_loop opts onTick (poll_init opts) s obs"

text \<open>A tick callback that records every call, to read off what the poller passes on.\<close>

definition recordTick :: "jsnum \<Rightarrow> string \<Rightarrow> (jsnum \<times> string) list \<Rightarrow> (jsnum \<times> string) list" where
  "recordTick percent status seen = seen @ [(percent, status)]"

definition payload :: "string \<Rightarrow> real \<Rightarrow> status_payload" where
  "payload s p = \<lparr>raw_status = JString s, raw_percent = Some (Fin p)\<rparr>"

text \<open>
  One observation of the status \<open>status\<close>: the loop was not aborted at its top and the
  fetch resolved to a payload whose normalised status is \<open>status\<close>.
\<close>

definition observes :: "string \<Rightarrow> bool \<times> fetch_result \<Rightarrow> bool" where
  "observes status ob =
     (case ob of
        (abort, Resolved raw) \<Rightarrow> \<not> abort \<and> safeLower (raw_status raw) = status
      | (abort, Rejected) \<Rightarrow> False)"

definition stale_then_real :: "(bool \<times> fetch_result) list" where
  "stale_then_real =
     [(False, Resolved (payload ''completed'' 100)),
      (False, Resolved (payload ''running'' 40)),
      (False, Resolved (payload ''completed'' 100))]"

section \<open>The pipeline driver\<close>

text \<open>
  The component's state, as far as the run reads or writes it: the React state
  \<open>steps\<close>, \<open>overallProgress\<close> and the two \<open>seenRunning\<close> flags, the three refs, and
  the two callbacks of the parent (\<open>setGeneratedData\<close>, \<open>onNext\<close>) as the value last
  handed over and a call counter. The debug log and the two \<open>last...Status\<close> strings are
  written but never read by the run; they are left out. State setters take effect in
  the order the run calls them, which is what React's updater functions guarantee.
\<close>

datatype step_status = Pending | Running | Completed | Error

record GenerationStep =
  step_id :: string
  step_name :: string
  description :: string
  status :: step_status
  progress :: jsnum

definition initialSteps :: "GenerationStep list" where
  "initialSteps =
     [\<lparr>step_id = ''preprocessing'', step_name = ''Data Preprocessing'',
       description = ''Analyzing and preparing your data for training'',
       status = Pending, progress = Fin 0\<rparr>,
      \<lparr>step_id = ''training'', step_name = ''Model Training'',
       description = ''Training the AI model on your data patterns'',
       status = Pending, progress = Fin 0\<rparr>,
      \<lparr>step_id = ''generation'', step_name = ''Synthetic Generation'',
       description = ''Generating synthetic samples with your parameters'',
       status = Pending, progress = Fin 0\<rparr>,
      \<lparr>step_id = ''validation'', step_name = ''Quality Validation'',
       description = ''Validating the quality and privacy of generated data'',
       status = Pending, progress = Fin 0\<rparr>]"

text \<open>\<open>prev.map((s, i) => f(s, i))\<close>\<close>

definition mapi :: "('a \<Rightarrow> nat \<Rightarrow> 'b) \<Rightarrow> 'a list \<Rightarrow> 'b list" where
  "mapi f xs = map (\<lambda>(i, x). f x i) (enumerate 0 xs)"

record generate_body =
  g_job_id :: unknown
  synthetic_data :: unknown

record train_body =
  job_id :: unknown

record component =
  steps :: "GenerationStep list"
  overallProgress :: jsnum
  seenRunningTraining :: bool
  seenRunningGeneration :: bool
  jobIdRef :: "string option"
  abortRef :: bool
  runIdRef :: nat
  generatedData :: "generate_body option"
  onNextCalls :: nat

text \<open>\<open>const weights = { preprocessing: 25, training: 35, generation: 30, validation: 10 }\<close>\<close>

record phase_weights =
  preprocessing :: jsnum
  training :: jsnum
  generation :: jsnum
  validation :: jsnum

definition weights :: phase_weights where
  "weights = \<lparr>preprocessing = Fin 25, training = Fin 35, generation = Fin 30, validation = Fin 10\<rparr>"

text \<open>
  What an awaited network call settles to: \<open>fetch\<close> rejects, the response is not ok,
  \<open>res.json()\<close> rejects, or the body is parsed. A body \<open>null\<close> is kept apart, since
  reading a property of it throws.
\<close>

datatype 'b response = NetworkError | NotOk | BadJson | JsonNull | Json 'b

text \<open>
  \<open>fetchStatus\<close> as its callers see it. It throws on a response that is not ok; a body
  \<open>null\<close> makes the caller's first read (\<open>raw.status\<close>, \<open>s.status\<close>) throw inside the
  same \<open>try\<close>, before any other effect, so it is a rejection to them as well.
\<close>

fun fetchStatus :: "status_payload response \<Rightarrow> fetch_result" where
  "fetchStatus (Json raw) = Resolved raw"
| "fetchStatus r = Rejected"

text \<open>
  What resumes a suspended run: a timer firing, or the response to the request it awaits.
\<close>

datatype event =
    TimerFired
  | TrainResponse "train_body response"
  | StatusResponse "status_payload response"
  | GenerateResponse "generate_body response"

text \<open>
  Where a run is suspended. Each constructor is one \<open>await\<close> of \<open>runGenerationPipeline\<close>
  or of the \<open>pollUntilDone\<close> it calls, with the local variables that are live there and,
  for a network call, the arguments of the request that was sent.
\<close>

datatype cont =
    PreprocessingDelay real
  | AfterPreprocessing
  | TrainingPost string string
  | PollFetch string poll_state
  | PollSleep string poll_state
  | AfterTraining
  | SanityFetch "string option"
  | GenerationGet "string option" jsnum
  | ValidationDelay real
  | AfterValidation
  | Finished

text \<open>The inputs a run snapshots at its start, and its identity \<open>myRun\<close>.\<close>

record run =
  myRun :: nat
  datasetId :: string
  sampleCount :: jsnum

text \<open>The guard \<open>abortRef.current || runIdRef.current !== myRun\<close>.\<close>

definition stale :: "component \<Rightarrow> nat \<Rightarrow> bool" where
  "stale c r = (abortRef c \<or> runIdRef c \<noteq> r)"

definition setStatus :: "nat \<Rightarrow> step_status \<Rightarrow> component \<Rightarrow> component" where
  "setStatus k st c = c\<lparr>steps := mapi (\<lambda>s i. if i = k then s\<lparr>status := st\<rparr> else s) (steps c)\<rparr>"

definition setProgress :: "nat \<Rightarrow> jsnum \<Rightarrow> component \<Rightarrow> component" where
  "setProgress k p c = c\<lparr>steps := mapi (\<lambda>s i. if i = k then s\<lparr>progress := p\<rparr> else s) (steps c)\<rparr>"

definition setCompleted :: "nat \<Rightarrow> component \<Rightarrow> component" where
  "setCompleted k c =
     c\<lparr>steps := mapi (\<lambda>s i. if i = k then s\<lparr>status := Completed, progress := Fin 100\<rparr> else s)
        (steps c)\<rparr>"

text \<open>Lines 195 and 269: step \<open>k\<close> becomes running at 0, the others keep what they have.\<close>

definition setRunning :: "nat \<Rightarrow> component \<Rightarrow> component" where
  "setRunning k c =
     c\<lparr>steps := mapi (\<lambda>s i. s\<lparr>status := (if i = k then Running else status s),
                               progress := (if i = k then Fin 0 else progress s)\<rparr>) (steps c)\<rparr>"

text \<open>The three progress expressions of lines 186, 232 and 333.\<close>

definition overallPreprocessing :: "jsnum \<Rightarrow> jsnum" where
  "overallPreprocessing p = js_mul (js_div p (Fin 100)) (preprocessing weights)"

definition overallTraining :: "jsnum \<Rightarrow> jsnum" where
  "overallTraining percent =
     js_add (preprocessing weights) (js_mul (js_div percent (Fin 100)) (training weights))"

definition overallValidation :: "jsnum \<Rightarrow> jsnum" where
  "overallValidation p =
     js_add (js_add (js_add (preprocessing weights) (training weights)) (generation weights))
       (js_mul (js_div p (Fin 100)) (validation weights))"

text \<open>
  The preprocessing loop \<open>for (let p = 0; p <= 100; p += 20)\<close>: its head with the guard
  of line 183, and its body after the delay of line 184. Leaving the loop marks step 0
  completed and waits 400 ms.
\<close>

definition preprocessingHead :: "nat \<Rightarrow> real \<Rightarrow> component \<Rightarrow> component \<times> cont" where
  "preprocessingHead r p c =
     (if p \<le> 100 then (if stale c r then (c, Finished) else (c, PreprocessingDelay p))
      else ((setCompleted 0 c)\<lparr>overallProgress := preprocessing weights\<rparr>, AfterPreprocessing))"

definition preprocessingBody :: "nat \<Rightarrow> real \<Rightarrow> component \<Rightarrow> component \<times> cont" where
  "preprocessingBody r p c =
     preprocessingHead r (p + 20)
       ((setProgress 0 (Fin p) c)\<lparr>overallProgress := overallPreprocessing (Fin p)\<rparr>)"

text \<open>
  The validation loop of lines 329 to 338, of the same shape. The statement that would
  mark step 3 running (line 328) is commented out in the source, so nothing does.
\<close>

definition validationHead :: "nat \<Rightarrow> real \<Rightarrow> component \<Rightarrow> component \<times> cont" where
  "validationHead r p c =
     (if p \<le> 100 then (if stale c r then (c, Finished) else (c, ValidationDelay p))
      else ((setCompleted 3 c)\<lparr>overallProgress := Fin 100\<rparr>, AfterValidation))"

definition validationBody :: "nat \<Rightarrow> real \<Rightarrow> component \<Rightarrow> component \<times> cont" where
  "validationBody r p c =
     validationHead r (p + 20)
       ((setProgress 3 (Fin p) c)\<lparr>overallProgress := overallValidation (Fin p)\<rparr>)"

text \<open>
  The call \<open>runGenerationPipeline()\<close> up to its first \<open>await\<close>: lines 154 to 184. The
  arguments are \<open>file?.dataset_id\<close> and \<open>parameters.samples\<close>.
\<close>

definition runGenerationPipeline ::
  "string option \<Rightarrow> jsnum \<Rightarrow> component \<Rightarrow> component \<times> run \<times> cont" where
  "runGenerationPipeline dataset_id samples c =
     (let c1 = c\<lparr>abortRef := False, runIdRef := runIdRef c + 1\<rparr>;
          r = \<lparr>myRun = runIdRef c1,
               datasetId = (case dataset_id of None \<Rightarrow> [] | Some d \<Rightarrow> d),
               sampleCount = samples\<rparr>;
          c2 = c1\<lparr>steps := initialSteps, overallProgress := Fin 0,
                 seenRunningTraining := False, seenRunningGeneration := False,
                 jobIdRef := None\<rparr>;
          c3 = c2\<lparr>steps := mapi (\<lambda>s i. s\<lparr>status := (if i = 0 then Running else Pending),
                                            progress := (if i = 0 then Fin 0 else progress s)\<rparr>)
                             (steps c2)\<rparr>;
          (c4, k) = preprocessingHead (myRun r) 0 c3
      in (c4, r, k))"

text \<open>Lines 195 to 211: step 1 becomes running and the training request is sent.\<close>

definition startTraining :: "run \<Rightarrow> component \<Rightarrow> component \<times> cont" where
  "startTraining r c = (setRunning 1 c, TrainingPost ''adsgan'' (datasetId r))"

text \<open>The tick callback the driver gives the poller, lines 228 to 233.\<close>

definition trainingTick :: "jsnum \<Rightarrow> string \<Rightarrow> component \<Rightarrow> component" where
  "trainingTick percent st c =
     (let c1 = (if st = ''running'' then c\<lparr>seenRunningTraining := True\<rparr> else c)
      in (setProgress 1 percent c1)\<lparr>overallProgress := overallTraining percent\<rparr>)"

text \<open>The options of the call at line 225: \<open>requireRunning: false\<close>, the default threshold.\<close>

definition trainingOpts :: poll_opts where
  "trainingOpts = \<lparr>requireRunning = False, maxConsecutiveErrors = 5\<rparr>"

text \<open>
  The top of the poller's loop inside the run (lines 75 to 82): only \<open>abortRef\<close> is read.
  An aborted poll makes the run return (line 238).
\<close>

definition pollTop :: "string \<Rightarrow> poll_state \<Rightarrow> component \<Rightarrow> component \<times> cont" where
  "pollTop j st c = (if abortRef c then (c, Finished) else (c, PollFetch j st))"

text \<open>What the run does with the way an iteration of the poller ends, lines 238 to 250.\<close>

definition afterPoll :: "string \<Rightarrow> poll_outcome \<Rightarrow> component \<Rightarrow> component \<times> cont" where
  "afterPoll j out c =
     (case out of
        Sleeping st \<Rightarrow> (c, PollSleep j st)
      | Returned PollAborted \<Rightarrow> (c, Finished)
      | Returned PollCompleted \<Rightarrow>
          ((setCompleted 1 c)\<lparr>overallProgress := js_add (preprocessing weights) (training weights)\<rparr>,
           AfterTraining)
      | Thrown m \<Rightarrow> (setStatus 1 Error c, Finished))"

definition pollFetched ::
  "string \<Rightarrow> poll_state \<Rightarrow> status_payload response \<Rightarrow> component \<Rightarrow> component \<times> cont" where
  "pollFetched j st resp c =
     (case poll_body trainingOpts trainingTick (fetchStatus resp) st c of
        (out, c') \<Rightarrow> afterPoll j out c')"

text \<open>
  Lines 203 to 225, once the training request has settled. Anything but a parsed body
  lands in the \<open>catch\<close> of line 217. A body without a string \<open>job_id\<close> gives the empty
  job id (line 214), and the run goes on to poll with it.
\<close>

definition afterTrainPost :: "train_body response \<Rightarrow> component \<Rightarrow> component \<times> cont" where
  "afterTrainPost resp c =
     (case resp of
        Json data \<Rightarrow>
          (let jobId = (case job_id data of JString s \<Rightarrow> s | _ \<Rightarrow> [])
           in pollTop jobId (poll_init trainingOpts) (c\<lparr>jobIdRef := Some jobId\<rparr>))
      | _ \<Rightarrow> (setStatus 1 Error c, Finished))"

text \<open>
  Lines 265 to 277: the guard before generation, step 2 running, the generation request
  for \<open>Math.min(100000, sampleCount)\<close> samples of the job in \<open>jobIdRef\<close>.
\<close>

definition beforeGeneration :: "run \<Rightarrow> component \<Rightarrow> component \<times> cont" where
  "beforeGeneration r c =
     (if stale c (myRun r) then (c, Finished)
      else (setRunning 2 c, GenerationGet (jobIdRef c) (Math_min (Fin 100000) (sampleCount r))))"

text \<open>
  Lines 253 to 263, once the status fetch of \<open>assertCompleted\<close> has settled. A status
  other than completed marks step 1 as error and returns. A rejected fetch is caught at
  line 261, logged, and the run goes on to generation.
\<close>

definition afterSanity :: "run \<Rightarrow> status_payload response \<Rightarrow> component \<Rightarrow> component \<times> cont" where
  "afterSanity r resp c =
     (case fetchStatus resp of
        Resolved s \<Rightarrow>
          (if safeLower (raw_status s) = ''completed'' then beforeGeneration r c
           else (setStatus 1 Error c, Finished))
      | Rejected \<Rightarrow> beforeGeneration r c)"

text \<open>
  Lines 278 to 331, once the generation request has settled: the body goes to the parent
  and the validation loop starts; anything else marks step 2 as error.
\<close>

definition afterGenerate :: "run \<Rightarrow> generate_body response \<Rightarrow> component \<Rightarrow> component \<times> cont" where
  "afterGenerate r resp c =
     (case resp of
        Json data \<Rightarrow> validationHead (myRun r) 0 (c\<lparr>generatedData := Some data\<rparr>)
      | _ \<Rightarrow> (setStatus 2 Error c, Finished))"

text \<open>
  One resumption of a suspended run: the continuation runs to its next \<open>await\<close>. An
  event the run is not waiting for is not delivered to it.
\<close>

fun resume :: "run \<Rightarrow> cont \<Rightarrow> event \<Rightarrow> component \<Rightarrow> component \<times> cont" where
  "resume r (PreprocessingDelay p) TimerFired c = preprocessingBody (myRun r) p c"
| "resume r AfterPreprocessing TimerFired c = startTraining r c"
| "resume r (TrainingPost m d) (TrainResponse resp) c = afterTrainPost resp c"
| "resume r (PollFetch j st) (StatusResponse resp) c = pollFetched j st resp c"
| "resume r (PollSleep j st) TimerFired c = pollTop j st c"
| "resume r AfterTraining TimerFired c = (c, SanityFetch (jobIdRef c))"
| "resume r (SanityFetch j) (StatusResponse resp) c = afterSanity r resp c"
| "resume r (GenerationGet j n) (GenerateResponse resp) c = afterGenerate r resp c"
| "resume r (ValidationDelay p) TimerFired c = validationBody (myRun r) p c"
| "resume r AfterValidation TimerFired c = (c\<lparr>onNextCalls := onNextCalls c + 1\<rparr>, Finished)"
| "resume r k e c = (c, k)"

text \<open>A run resumed by a list of events, and the states it passes through.\<close>

fun resumes :: "run \<Rightarrow> component \<times> cont \<Rightarrow> event list \<Rightarrow> component \<times> cont" where
  "resumes r ck [] = ck"
| "resumes r (c, k) (e # es) = resumes r (resume r k e c) es"

fun trace :: "run \<Rightarrow> component \<times> cont \<Rightarrow> event list \<Rightarrow> (component \<times> cont) list" where
  "trace r ck [] = [ck]"
| "trace r (c, k) (e # es) = (c, k) # trace r (resume r k e c) es"

section \<open>Phases, weights and observations of a run\<close>

text \<open>The four phases in their order, with the weight the source gives each.\<close>

datatype phase = Preprocessing | Training | Generation | Validation






text \<open>Whether a network call settled to a parsed body.\<close>

fun parsed :: "'b response \<Rightarrow> bool" where
  "parsed (Json b) = True"
| "parsed r = False"

text \<open>
  The percent the poller hands to the tick callback when the run is resumed by an event:
  one value when a status fetch of the poller resolves to a payload, none otherwise.
\<close>

fun tickOf :: "cont \<Rightarrow> event \<Rightarrow> jsnum list" where
  "tickOf (PollFetch j st) (StatusResponse (Json raw)) = [clampPercent (raw_percent raw)]"
| "tickOf k e = []"

fun ticks :: "run \<Rightarrow> component \<times> cont \<Rightarrow> event list \<Rightarrow> jsnum list" where
  "ticks r ck [] = []"
| "ticks r (c, k) (e # es) = tickOf k e @ ticks r (resume r k e c) es"

text \<open>The overall progress and the status of step \<open>i\<close> along a trace.\<close>

definition overallHistory :: "(component \<times> cont) list \<Rightarrow> jsnum list" where
  "overallHistory tr = map (\<lambda>ck. overallProgress (fst ck)) tr"

definition statusHistory :: "nat \<Rightarrow> (component \<times> cont) list \<Rightarrow> step_status list" where
  "statusHistory i tr = map (\<lambda>ck. status (steps (fst ck) ! i)) tr"

text \<open>Whether the run is inside the poller.\<close>

fun polling :: "cont \<Rightarrow> bool" where
  "polling (PollFetch j st) = True"
| "polling (PollSleep j st) = True"
| "polling k = False"

text \<open>
  A bound on the overall progress \<open>v\<close> of a run suspended at a continuation: it is at
  most any value the run sets later on its own (that is, other than by a polling tick).
\<close>

fun capped :: "cont \<Rightarrow> real \<Rightarrow> bool" where
  "capped (PreprocessingDelay p) v = (v \<le> p / 100 * 25 \<and> p \<le> 100)"
| "capped AfterPreprocessing v = (v \<le> 25)"
| "capped (TrainingPost m d) v = (v \<le> 25)"
| "capped (PollFetch j st) v = (v \<le> 60)"
| "capped (PollSleep j st) v = (v \<le> 60)"
| "capped AfterTraining v = (v \<le> 60)"
| "capped (SanityFetch j) v = (v \<le> 60)"
| "capped (GenerationGet j n) v = (v \<le> 60)"
| "capped (ValidationDelay p) v = (v \<le> 90 + p / 100 * 10 \<and> p \<le> 100)"
| "capped AfterValidation v = (v \<le> 100)"
| "capped Finished v = True"

section \<open>Scenarios\<close>

text \<open>A freshly mounted component, and a first run on it for dataset \<open>d1\<close> and 1000 samples.\<close>

definition mounted :: component where
  "mounted =
     \<lparr>steps = initialSteps, overallProgress = Fin 0, seenRunningTraining = False,
      seenRunningGeneration = False, jobIdRef = None, abortRef = False, runIdRef = 0,
      generatedData = None, onNextCalls = 0\<rparr>"

definition firstRun :: run where
  "firstRun = fst (snd (runGenerationPipeline (Some ''d1'') (Fin 1000) mounted))"

definition started :: "component \<times> cont" where
  "started =
     (fst (runGenerationPipeline (Some ''d1'') (Fin 1000) mounted),
      snd (snd (runGenerationPipeline (Some ''d1'') (Fin 1000) mounted)))"

text \<open>
  The events that take the first run through preprocessing (six increments and the
  400 ms pause) to the training request, and the response that starts job \<open>j1\<close>.
\<close>

definition throughPreprocessing :: "event list" where
  "throughPreprocessing = replicate 7 TimerFired"

definition trainingStarted :: "event list" where
  "trainingStarted = throughPreprocessing @ [TrainResponse (Json \<lparr>job_id = JString ''j1''\<rparr>)]"

text \<open>The training poll sees \<open>completed\<close> at once; the run pauses 400 ms and re-checks.\<close>

definition trainingCompleted :: "event list" where
  "trainingCompleted =
     trainingStarted @ [StatusResponse (Json (payload ''completed'' 100)), TimerFired]"

text \<open>A whole run in which every request succeeds.\<close>

definition successfulRun :: "event list" where
  "successfulRun =
     trainingCompleted @
     [StatusResponse (Json (payload ''completed'' 100)),
      GenerateResponse (Json \<lparr>g_job_id = JString ''j1'', synthetic_data = JObject\<rparr>)] @
     replicate 7 TimerFired"

text \<open>A training poll in which the backend reports 80 percent and then 40 percent.\<close>

definition backendGoesBack :: "event list" where
  "backendGoesBack =
     trainingStarted @
     [StatusResponse (Json (payload ''running'' 80)), TimerFired,
      StatusResponse (Json (payload ''running'' 40))]"

text \<open>
  A second run started on the same component while the first run waits for a status
  fetch of its training poll.
\<close>

definition secondRunStarted :: "component \<times> run \<times> cont" where
  "secondRunStarted =
     runGenerationPipeline (Some ''d2'') (Fin 500) (fst (resumes firstRun started trainingStarted))"

text \<open>A training poll in which the backend reports 40, 80 and 100 percent.\<close>

definition backendGoesForward :: "event list" where
  "backendGoesForward =
     trainingStarted @
     [StatusResponse (Json (payload ''running'' 40)), TimerFired,
      StatusResponse (Json (payload ''running'' 80)), TimerFired,
      StatusResponse (Json (payload ''completed'' 100)), TimerFired]"

text \<open>The component when the first run waits for the response to its training request.\<close>

definition awaitingTrainPost :: component where
  "awaitingTrainPost = fst (resumes firstRun started throughPreprocessing)"






section \<open>Properties of the status poller\<close>

lemmas poll_eval =
  pollUntilDone_def poll_init_def default_opts_def poll_body_def payload_def toLowerCase_def
  lower_char_def clampPercent_def recordTick_def poll_catch_def observes_def

lemma poll_loop_append:
  "poll_loop opts f st s pre = (Sleeping st1, s1) \<Longrightarrow>
   poll_loop opts f st s (pre @ rest) = poll_loop opts f st1 s1 rest"
proof (induction pre arbitrary: st s)
  case Nil
  then show ?case by simp
next
  case (Cons ob pre)
  obtain abort fr where ob: "ob = (abort, fr)" by (cases ob)
  show ?case
  proof (cases "poll_body opts f fr st s")
    case (Pair out s2)
    with Cons ob show ?thesis
      by (cases out) (auto split: if_splits)
  qed
qed

lemma poll_body_seen:
  "poll_body opts f fr st s = (Sleeping st', s') \<Longrightarrow> seenRunning st \<Longrightarrow> seenRunning st'"
  by (auto simp: poll_body_def poll_catch_def Let_def split: fetch_result.splits if_splits)

lemma poll_loop_seen:
  "poll_loop opts f st s obs = (Sleeping st', s') \<Longrightarrow> seenRunning st \<Longrightarrow> seenRunning st'"
proof (induction obs arbitrary: st s)
  case Nil
  then show ?case by simp
next
  case (Cons ob obs)
  obtain abort fr where ob: "ob = (abort, fr)" by (cases ob)
  show ?case
  proof (cases "poll_body opts f fr st s")
    case (Pair out s2)
    with Cons ob show ?thesis
      by (cases out) (auto split: if_splits dest: poll_body_seen)
  qed
qed

lemma poll_body_completed:
  "poll_body opts f fr st s = (Returned r, s') \<Longrightarrow>
   r = PollCompleted \<and> seenRunning st \<and> observes ''completed'' (False, fr)"
  by (auto simp: poll_body_def poll_catch_def observes_def Let_def
      split: fetch_result.splits if_splits)

lemma poll_body_sets_seen:
  "poll_body opts f fr st s = (Sleeping st', s') \<Longrightarrow> seenRunning st' \<Longrightarrow>
   seenRunning st \<or> observes ''running'' (False, fr)"
  by (auto simp: poll_body_def poll_catch_def observes_def Let_def
      split: fetch_result.splits if_splits)

lemma poll_loop_completed:
  "poll_loop opts f st s obs = (Returned PollCompleted, s') \<Longrightarrow>
   (\<exists>j < length obs. observes ''completed'' (obs ! j) \<and>
      (seenRunning st \<or> (\<exists>i < j. observes ''running'' (obs ! i))))"
proof (induction obs arbitrary: st s)
  case Nil
  then show ?case by simp
next
  case (Cons ob obs)
  obtain abort fr where ob: "ob = (abort, fr)" by (cases ob)
  from Cons.prems ob have na: "\<not> abort" by (auto split: if_splits)
  show ?case
  proof (cases "poll_body opts f fr st s")
    case (Pair out s2)
    show ?thesis
    proof (cases out)
      case (Sleeping st2)
      with Cons.prems ob na Pair
      have "poll_loop opts f st2 s2 obs = (Returned PollCompleted, s')" by simp
      from Cons.IH [OF this] obtain j where j: "j < length obs"
        "observes ''completed'' (obs ! j)"
        "seenRunning st2 \<or> (\<exists>i < j. observes ''running'' (obs ! i))" by blast
      have s2: "seenRunning st2 \<Longrightarrow> seenRunning st \<or> observes ''running'' (False, fr)"
        using poll_body_sets_seen [of opts f fr st s st2 s2] Pair Sleeping by simp
      have "seenRunning st \<or> (\<exists>i < Suc j. observes ''running'' ((ob # obs) ! i))"
      proof (cases "seenRunning st2")
        case True
        with s2 ob na show ?thesis by auto
      next
        case False
        with j(3) obtain i where "i < j" "observes ''running'' (obs ! i)" by blast
        then have "Suc i < Suc j \<and> observes ''running'' ((ob # obs) ! Suc i)" by simp
        then show ?thesis by blast
      qed
      with j(1,2) have "Suc j < length (ob # obs) \<and> observes ''completed'' ((ob # obs) ! Suc j)
          \<and> (seenRunning st \<or> (\<exists>i < Suc j. observes ''running'' ((ob # obs) ! i)))"
        by simp
      then show ?thesis by blast
    next
      case (Returned r)
      with Pair poll_body_completed [of opts f fr st s r s2]
      have "seenRunning st \<and> observes ''completed'' (False, fr)" by simp
      with ob na have "0 < length (ob # obs) \<and> observes ''completed'' ((ob # obs) ! 0)
          \<and> seenRunning st" by simp
      then show ?thesis by blast
    next
      case (Thrown m)
      with Cons.prems ob na Pair show ?thesis by simp
    qed
  qed
qed

lemma poll_body_on_completed:
  "observes ''completed'' (abort, fr) \<Longrightarrow>
   fst (poll_body opts f fr st s) =
     (if seenRunning st then Returned PollCompleted else Sleeping (st\<lparr>errors := 0\<rparr>))"
  by (cases fr) (auto simp: poll_body_def observes_def Let_def)

lemma poll_body_on_running:
  "observes ''running'' (abort, fr) \<Longrightarrow>
   fst (poll_body opts f fr st s) = Sleeping (st\<lparr>seenRunning := True, errors := 0\<rparr>)"
  by (cases fr) (auto simp: poll_body_def observes_def Let_def)

lemma requireRunning_needs_running:
  assumes "requireRunning opts"
    and "pollUntilDone opts onTick s obs = (Returned PollCompleted, s')"
  shows "\<exists>i j. i < j \<and> j < length obs \<and>
         observes ''running'' (obs ! i) \<and> observes ''completed'' (obs ! j)"
proof -
  from assms(2) have "poll_loop opts onTick (poll_init opts) s obs = (Returned PollCompleted, s')"
    by (simp add: pollUntilDone_def)
  from poll_loop_completed [OF this] assms(1) show ?thesis
    by (auto simp: poll_init_def)
qed

lemma requireRunning_stale_completed:
  assumes h: "requireRunning opts" "observes ''completed'' a" "observes ''running'' b"
    "observes ''completed'' c"
  shows "fst (pollUntilDone opts onTick s [a]) = Sleeping \<lparr>errors = 0, seenRunning = False\<rparr> \<and>
      fst (pollUntilDone opts onTick s [a, b]) = Sleeping \<lparr>errors = 0, seenRunning = True\<rparr> \<and>
      fst (pollUntilDone opts onTick s [a, b, c]) = Returned PollCompleted"
proof -
  obtain aa fa where a: "a = (aa, fa)" by (cases a)
  obtain ab fb where b: "b = (ab, fb)" by (cases b)
  obtain ac fc where c: "c = (ac, fc)" by (cases c)
  from h a b c have na: "\<not> aa" "\<not> ab" "\<not> ac"
    by (auto simp: observes_def split: fetch_result.splits)
  have 1: "fst (poll_body opts onTick fa st s) =
     (if seenRunning st then Returned PollCompleted else Sleeping (st\<lparr>errors := 0\<rparr>))"
    for st s
    using h a poll_body_on_completed [of aa fa opts onTick st s] by simp
  have 2: "fst (poll_body opts onTick fb st s) =
     Sleeping (st\<lparr>seenRunning := True, errors := 0\<rparr>)" for st s
    using h b poll_body_on_running [of ab fb opts onTick st s] by simp
  have 3: "fst (poll_body opts onTick fc st s) =
     (if seenRunning st then Returned PollCompleted else Sleeping (st\<lparr>errors := 0\<rparr>))"
    for st s
    using h c poll_body_on_completed [of ac fc opts onTick st s] by simp
  obtain o1 s1 where p1: "poll_body opts onTick fa (poll_init opts) s = (o1, s1)"
    by (cases "poll_body opts onTick fa (poll_init opts) s")
  with 1 [of "poll_init opts" s] h
  have o1: "o1 = Sleeping \<lparr>errors = 0, seenRunning = False\<rparr>"
    by (simp add: poll_init_def)
  obtain o2 s2 where p2:
    "poll_body opts onTick fb \<lparr>errors = 0, seenRunning = False\<rparr> s1 = (o2, s2)"
    by (cases "poll_body opts onTick fb \<lparr>errors = 0, seenRunning = False\<rparr> s1")
  with 2 [of "\<lparr>errors = 0, seenRunning = False\<rparr>" s1]
  have o2: "o2 = Sleeping \<lparr>errors = 0, seenRunning = True\<rparr>" by simp
  obtain o3 s3 where p3:
    "poll_body opts onTick fc \<lparr>errors = 0, seenRunning = True\<rparr> s2 = (o3, s3)"
    by (cases "poll_body opts onTick fc \<lparr>errors = 0, seenRunning = True\<rparr> s2")
  with 3 [of "\<lparr>errors = 0, seenRunning = True\<rparr>" s2]
  have o3: "o3 = Returned PollCompleted" by simp
  show ?thesis
    using a b c na p1 o1 p2 o2 p3 o3 by (simp add: pollUntilDone_def)
qed

lemma first_completed_ends_poll:
  assumes h: "\<not> requireRunning opts" "pollUntilDone opts onTick s pre = (Sleeping st, s1)"
    "observes ''completed'' ob"
  shows "fst (pollUntilDone opts onTick s (pre @ ob # post)) = Returned PollCompleted"
proof -
  from h have pre: "poll_loop opts onTick (poll_init opts) s pre = (Sleeping st, s1)"
    by (simp add: pollUntilDone_def)
  from h have "seenRunning (poll_init opts)" by (simp add: poll_init_def)
  with poll_loop_seen [OF pre] have seen: "seenRunning st" by simp
  obtain ab fb where ob: "ob = (ab, fb)" by (cases ob)
  from h ob have na: "\<not> ab" by (auto simp: observes_def split: fetch_result.splits)
  from h ob seen poll_body_on_completed [of ab fb opts onTick st s1]
  have "fst (poll_body opts onTick fb st s1) = Returned PollCompleted" by simp
  then obtain s2 where "poll_body opts onTick fb st s1 = (Returned PollCompleted, s2)"
    by (cases "poll_body opts onTick fb st s1") simp
  with ob na have "poll_loop opts onTick st s1 (ob # post) = (Returned PollCompleted, s2)"
    by simp
  with poll_loop_append [OF pre, of "ob # post"]
  show ?thesis
    by (simp add: pollUntilDone_def)
qed

text \<open>
  Claim C2. With \<open>requireRunning = true\<close> the poller returns \<open>completed\<close> only after an
  earlier observation of \<open>running\<close>: whenever it returns \<open>completed\<close>, some observation
  \<open>i\<close> read \<open>running\<close> and a later observation \<open>j\<close> read \<open>completed\<close>. On the three
  observations completed, running, completed (any payloads with these statuses) it is
  still polling after the first and after the second, and returns on the third. With
  \<open>requireRunning = false\<close>, the first \<open>completed\<close> observed while it is polling ends
  the poll.
\<close>

theorem pollUntilDone_requireRunning:
  "(requireRunning opts \<and> pollUntilDone opts onTick s obs = (Returned PollCompleted, s') \<longrightarrow>
      (\<exists>i j. i < j \<and> j < length obs \<and>
         observes ''running'' (obs ! i) \<and> observes ''completed'' (obs ! j))) \<and>
   (requireRunning opts \<and> observes ''completed'' a \<and> observes ''running'' b \<and>
      observes ''completed'' c \<longrightarrow>
      fst (pollUntilDone opts onTick s [a]) = Sleeping \<lparr>errors = 0, seenRunning = False\<rparr> \<and>
      fst (pollUntilDone opts onTick s [a, b]) = Sleeping \<lparr>errors = 0, seenRunning = True\<rparr> \<and>
      fst (pollUntilDone opts onTick s [a, b, c]) = Returned PollCompleted) \<and>
   (\<not> requireRunning opts \<and> pollUntilDone opts onTick s pre = (Sleeping st, s1) \<and>
      observes ''completed'' ob \<longrightarrow>
      fst (pollUntilDone opts onTick s (pre @ ob # post)) = Returned PollCompleted)"
  using requireRunning_needs_running [of opts onTick s obs s']
    requireRunning_stale_completed [of opts a b c onTick s]
    first_completed_ends_poll [of opts onTick s pre st s1 ob post]
  by blast

theorem pollUntilDone_requireRunning_witness:
  "fst (pollUntilDone (default_opts\<lparr>requireRunning := True\<rparr>) recordTick [] (take 1 stale_then_real))
     = Sleeping \<lparr>errors = 0, seenRunning = False\<rparr> \<and>
   fst (pollUntilDone (default_opts\<lparr>requireRunning := True\<rparr>) recordTick [] (take 2 stale_then_real))
     = Sleeping \<lparr>errors = 0, seenRunning = True\<rparr> \<and>
   pollUntilDone (default_opts\<lparr>requireRunning := True\<rparr>) recordTick [] stale_then_real
     = (Returned PollCompleted,
        [(Fin 100, ''completed''), (Fin 40, ''running''), (Fin 100, ''completed'')]) \<and>
   (\<exists>i j. i < j \<and> j < length stale_then_real \<and>
      observes ''running'' (stale_then_real ! i) \<and> observes ''completed'' (stale_then_real ! j)) \<and>
   pollUntilDone default_opts recordTick [] [(False, Resolved (payload ''queued'' 0))]
     = (Sleeping \<lparr>errors = 0, seenRunning = True\<rparr>, [(Fin 0, ''queued'')]) \<and>
   fst (pollUntilDone default_opts recordTick []
      ([(False, Resolved (payload ''queued'' 0))] @ (False, Resolved (payload ''completed'' 100))
         # [(False, Resolved (payload ''running'' 10))])) = Returned PollCompleted"
proof -
  let ?o = "default_opts\<lparr>requireRunning := True\<rparr>"
  have r: "requireRunning ?o" by (simp add: default_opts_def)
  have run: "pollUntilDone ?o recordTick [] stale_then_real
     = (Returned PollCompleted,
        [(Fin 100, ''completed''), (Fin 40, ''running''), (Fin 100, ''completed'')])"
    by (simp add: stale_then_real_def poll_eval)
  have obs: "observes ''completed'' (False, Resolved (payload ''completed'' 100))"
    "observes ''running'' (False, Resolved (payload ''running'' 40))"
    by (simp_all add: poll_eval)
  have q: "pollUntilDone default_opts recordTick [] [(False, Resolved (payload ''queued'' 0))]
     = (Sleeping \<lparr>errors = 0, seenRunning = True\<rparr>, [(Fin 0, ''queued'')])"
    by (simp add: poll_eval)
  have nr: "\<not> requireRunning default_opts" by (simp add: default_opts_def)
  note t1 = pollUntilDone_requireRunning [of ?o recordTick "[]" stale_then_real
      "[(Fin 100, ''completed''), (Fin 40, ''running''), (Fin 100, ''completed'')]"
      "(False, Resolved (payload ''completed'' 100))"
      "(False, Resolved (payload ''running'' 40))"
      "(False, Resolved (payload ''completed'' 100))"]
  note t2 = pollUntilDone_requireRunning [of default_opts recordTick "[]" _ _ _ _ _
      "[(False, Resolved (payload ''queued'' 0))]" "\<lparr>errors = 0, seenRunning = True\<rparr>"
      "[(Fin 0, ''queued'')]" "(False, Resolved (payload ''completed'' 100))"
      "[(False, Resolved (payload ''running'' 10))]"]
  from t1 r run obs have "fst (pollUntilDone ?o recordTick [] (take 1 stale_then_real))
     = Sleeping \<lparr>errors = 0, seenRunning = False\<rparr> \<and>
   fst (pollUntilDone ?o recordTick [] (take 2 stale_then_real))
     = Sleeping \<lparr>errors = 0, seenRunning = True\<rparr> \<and>
   (\<exists>i j. i < j \<and> j < length stale_then_real \<and>
      observes ''running'' (stale_then_real ! i) \<and> observes ''completed'' (stale_then_real ! j))"
    by (simp add: stale_then_real_def)
  moreover from t2 nr q obs(1)
  have "fst (pollUntilDone default_opts recordTick []
      ([(False, Resolved (payload ''queued'' 0))] @ (False, Resolved (payload ''completed'' 100))
         # [(False, Resolved (payload ''running'' 10))])) = Returned PollCompleted"
    by blast
  ultimately show ?thesis using run q by blast
qed

lemma clampPercent_absent: "clampPercent None = Fin 0"
  by (simp add: clampPercent_def)

lemma clampPercent_Fin: "clampPercent (Some (Fin x)) = Fin (max 0 (min 100 x))"
  by (simp add: clampPercent_def)

lemma clampPercent_infinite:
  "clampPercent (Some PosInf) = Fin 100" "clampPercent (Some NegInf) = Fin 0"
  by (simp_all add: clampPercent_def)

lemma clampPercent_cases:
  "clampPercent p = NaN \<or> (\<exists>x. clampPercent p = Fin x \<and> 0 \<le> x \<and> x \<le> 100)"
proof (cases p)
  case None
  then show ?thesis by (simp add: clampPercent_absent)
next
  case (Some n)
  then show ?thesis by (cases n) (simp_all add: clampPercent_def)
qed

text \<open>
  Claim C7. With the threshold at 5, five fetch failures in a row make the poller throw
  \<open>Too many polling errors\<close>, while after four it is still polling with the counter at
  4. Four failures followed by a fetch that succeeds with a status that does not end the
  poll (not \<open>failed\<close>, not \<open>error\<close>, and \<open>completed\<close> only while a running status is
  still required) leave it polling with the counter back at 0: four further failures
  do not make it throw.
\<close>

theorem pollUntilDone_error_threshold:
  "maxConsecutiveErrors opts = 5 \<longrightarrow>
     pollUntilDone opts onTick s (replicate 5 (False, Rejected))
       = (Thrown ''Too many polling errors'', s) \<and>
     pollUntilDone opts onTick s (replicate 4 (False, Rejected))
       = (Sleeping \<lparr>errors = 4, seenRunning = \<not> requireRunning opts\<rparr>, s) \<and>
     (safeLower (raw_status raw) \<noteq> ''failed'' \<and> safeLower (raw_status raw) \<noteq> ''error'' \<and>
      (safeLower (raw_status raw) = ''completed'' \<longrightarrow> requireRunning opts) \<longrightarrow>
        pollUntilDone opts onTick s (replicate 4 (False, Rejected) @ [(False, Resolved raw)])
          = (Sleeping \<lparr>errors = 0,
               seenRunning = (safeLower (raw_status raw) = ''running'' \<or> \<not> requireRunning opts)\<rparr>,
             onTick (clampPercent (raw_percent raw)) (safeLower (raw_status raw)) s) \<and>
        pollUntilDone opts onTick s
            (replicate 4 (False, Rejected) @ [(False, Resolved raw)] @ replicate 4 (False, Rejected))
          = (Sleeping \<lparr>errors = 4,
               seenRunning = (safeLower (raw_status raw) = ''running'' \<or> \<not> requireRunning opts)\<rparr>,
             onTick (clampPercent (raw_percent raw)) (safeLower (raw_status raw)) s))"
  by (auto simp: pollUntilDone_def poll_init_def poll_body_def poll_catch_def Let_def
      numeral_eq_Suc)

theorem pollUntilDone_error_threshold_witness:
  "pollUntilDone default_opts recordTick [] (replicate 5 (False, Rejected))
     = (Thrown ''Too many polling errors'', []) \<and>
   pollUntilDone default_opts recordTick [] (replicate 4 (False, Rejected))
     = (Sleeping \<lparr>errors = 4, seenRunning = True\<rparr>, []) \<and>
   pollUntilDone default_opts recordTick []
       (replicate 4 (False, Rejected) @ [(False, Resolved (payload ''running'' 30))])
     = (Sleeping \<lparr>errors = 0, seenRunning = True\<rparr>, [(Fin 30, ''running'')]) \<and>
   pollUntilDone default_opts recordTick []
       (replicate 4 (False, Rejected) @ [(False, Resolved (payload ''running'' 30))]
          @ replicate 4 (False, Rejected))
     = (Sleeping \<lparr>errors = 4, seenRunning = True\<rparr>, [(Fin 30, ''running'')])"
proof -
  have five: "maxConsecutiveErrors default_opts = 5" by (simp add: default_opts_def)
  have st: "safeLower (raw_status (payload ''running'' 30)) = ''running''"
    by (simp add: payload_def toLowerCase_def lower_char_def)
  have pc: "clampPercent (raw_percent (payload ''running'' 30)) = Fin 30"
    by (simp add: payload_def clampPercent_def)
  have nr: "\<not> requireRunning default_opts" by (simp add: default_opts_def)
  from pollUntilDone_error_threshold [of default_opts recordTick "[]" "payload ''running'' 30"]
    five st pc nr
  show ?thesis by (simp add: recordTick_def)
qed

text \<open>
  The only message the poller ever throws is that of line 103: the error of line 90
  does not leave the loop.
\<close>

lemma poll_body_throws:
  "poll_body opts f fr st s = (Thrown m, s') \<Longrightarrow> m = ''Too many polling errors''"
  by (auto simp: poll_body_def poll_catch_def Let_def split: fetch_result.splits if_splits)

lemma poll_loop_throws:
  "poll_loop opts f st s obs = (Thrown m, s') \<Longrightarrow> m = ''Too many polling errors''"
proof (induction obs arbitrary: st s)
  case Nil
  then show ?case by simp
next
  case (Cons ob obs)
  obtain abort fr where ob: "ob = (abort, fr)" by (cases ob)
  show ?case
  proof (cases "poll_body opts f fr st s")
    case (Pair out s2)
    with Cons ob show ?thesis
      by (cases out) (auto split: if_splits dest: poll_body_throws)
  qed
qed

text \<open>
  Claim C3, evaluated on the code. A fetch that succeeds with the status \<open>failed\<close> does
  not end the poll: the \<open>throw\<close> of line 90 is caught by the loop's own \<open>catch\<close>, the
  observation counts as one polling error, and the poller goes on. Here it then sees
  \<open>running\<close> and \<open>completed\<close> and returns \<open>completed\<close>.
\<close>

theorem failed_status_is_retried:
  "pollUntilDone default_opts recordTick [] [(False, Resolved (payload ''failed'' 0))]
     = (Sleeping \<lparr>errors = 1, seenRunning = True\<rparr>, [(Fin 0, ''failed'')]) \<and>
   pollUntilDone default_opts recordTick []
       [(False, Resolved (payload ''failed'' 0)), (False, Resolved (payload ''running'' 50)),
        (False, Resolved (payload ''completed'' 100))]
     = (Returned PollCompleted, [(Fin 0, ''failed''), (Fin 50, ''running''), (Fin 100, ''completed'')])"
  by (simp add: poll_eval)

text \<open>
  Claim C6, evaluated on the code. A payload whose \<open>percent\<close> is \<open>NaN\<close> reaches the tick
  callback as \<open>NaN\<close>: \<open>Math.min\<close> and \<open>Math.max\<close> return \<open>NaN\<close> when an argument is.
\<close>

theorem nan_percent_reaches_tick:
  "pollUntilDone default_opts recordTick []
       [(False, Resolved \<lparr>raw_status = JString ''running'', raw_percent = Some NaN\<rparr>)]
     = (Sleeping \<lparr>errors = 0, seenRunning = True\<rparr>, [(NaN, ''running'')])"
  by (simp add: poll_eval)

section \<open>Properties of the pipeline driver\<close>

lemmas scenario_defs =
  mounted_def firstRun_def started_def throughPreprocessing_def trainingStarted_def
  trainingCompleted_def successfulRun_def backendGoesBack_def backendGoesForward_def
  secondRunStarted_def runGenerationPipeline_def initialSteps_def mapi_def payload_def
  toLowerCase_def lower_char_def

lemmas step_defs =
  preprocessingHead_def preprocessingBody_def validationHead_def validationBody_def
  startTraining_def trainingTick_def trainingOpts_def pollTop_def afterPoll_def pollFetched_def
  afterTrainPost_def beforeGeneration_def afterSanity_def afterGenerate_def
  setStatus_def setProgress_def setCompleted_def setRunning_def stale_def
  overallPreprocessing_def overallTraining_def overallValidation_def weights_def
  poll_body_def poll_catch_def poll_init_def clampPercent_def

lemma js_le_trans: "js_le a b \<Longrightarrow> js_le b c \<Longrightarrow> js_le a c"
  by (cases a; cases b; cases c) auto

lemma sorted_wrt_js_le_Cons:
  assumes "js_le x y" and "sorted_wrt js_le (y # ys)"
  shows "sorted_wrt js_le (x # y # ys)"
  using assms js_le_trans by auto

lemma overallTraining_Fin: "overallTraining (Fin x) = Fin (25 + x / 100 * 35)"
  by (simp add: overallTraining_def weights_def)

lemma overallTraining_mono: "js_le (Fin x) q \<Longrightarrow> js_le (overallTraining (Fin x)) (overallTraining q)"
  by (cases q) (simp_all add: overallTraining_def weights_def js_inf_def js_sign_def)

lemma resume_no_tick:
  assumes "overallProgress c = Fin v" and "capped k v" and "tickOf k e = []"
    and "resume r k e c = (c', k')"
  shows "case overallProgress c' of
           Fin v' \<Rightarrow> v \<le> v' \<and> capped k' v' \<and> (polling k' \<longrightarrow> (polling k \<and> v' = v) \<or> v' \<le> 25)
         | _ \<Rightarrow> False"
proof (cases k)
  case (PreprocessingDelay p)
  with assms show ?thesis
    by (cases e) (auto simp: step_defs split: if_splits)
next
  case AfterPreprocessing
  with assms show ?thesis
    by (cases e) (auto simp: step_defs split: if_splits)
next
  case (TrainingPost m d)
  with assms show ?thesis
    by (cases e) (auto simp: step_defs Let_def split: if_splits response.splits)
next
  case (PollFetch j st)
  show ?thesis
  proof (cases e)
    case (StatusResponse resp)
    with assms PollFetch have "fetchStatus resp = Rejected"
      by (cases resp) simp_all
    with assms PollFetch StatusResponse show ?thesis
      by (auto simp: step_defs Let_def split: if_splits)
  qed (use assms PollFetch in auto)
next
  case (PollSleep j st)
  with assms show ?thesis
    by (cases e) (auto simp: step_defs split: if_splits)
next
  case AfterTraining
  with assms show ?thesis
    by (cases e) (auto simp: step_defs split: if_splits)
next
  case (SanityFetch j)
  with assms show ?thesis
    by (cases e) (auto simp: step_defs split: if_splits fetch_result.splits)
next
  case (GenerationGet j n)
  with assms show ?thesis
    by (cases e) (auto simp: step_defs split: if_splits response.splits)
next
  case (ValidationDelay p)
  with assms show ?thesis
    by (cases e) (auto simp: step_defs split: if_splits)
next
  case AfterValidation
  with assms show ?thesis
    by (cases e) (auto simp: step_defs split: if_splits)
next
  case Finished
  with assms show ?thesis
    by (cases e) (auto simp: step_defs split: if_splits)
qed

lemma resume_tick:
  assumes "resume r (PollFetch j st) (StatusResponse (Json raw)) c = (c', k')"
    and "clampPercent (raw_percent raw) = Fin x" and "0 \<le> x" and "x \<le> 100"
  shows "case overallProgress c' of
           Fin v' \<Rightarrow> 25 + x / 100 * 35 \<le> v' \<and> capped k' v' \<and>
             (polling k' \<longrightarrow> v' = 25 + x / 100 * 35)
         | _ \<Rightarrow> False"
  using assms
  by (auto simp: pollFetched_def poll_body_def poll_catch_def afterPoll_def trainingTick_def
      trainingOpts_def setProgress_def setCompleted_def setStatus_def overallTraining_Fin
      weights_def Let_def split: if_splits)


lemma ticks_nonneg:
  assumes "sorted_wrt js_le (Fin 0 # ts)" and "q \<in> set ts"
  shows "\<exists>x. q = Fin x \<and> 0 \<le> x \<or> q = PosInf"
proof -
  from assms have "js_le (Fin 0) q" by auto
  then show ?thesis by (cases q) simp_all
qed

lemma overallTraining_floor:
  assumes "js_le (Fin 0) q" and "v \<le> 25"
  shows "js_le (Fin v) (overallTraining q)"
  using assms
  by (cases q) (simp_all add: overallTraining_def weights_def js_inf_def js_sign_def)

lemma history_Cons:
  "overallHistory (trace r (c, k) (e # es)) =
     overallProgress c # overallHistory (trace r (resume r k e c) es)"
  by (simp add: overallHistory_def)

lemma history_head:
  "\<exists>tl. overallHistory (trace r (c, k) es) = overallProgress c # tl"
  by (cases es) (simp_all add: overallHistory_def)

lemma history_sorted:
  assumes "overallProgress c = Fin v" and "capped k v"
    and "sorted_wrt js_le (Fin 0 # ticks r (c, k) evs)"
    and "polling k \<longrightarrow> (\<forall>q \<in> set (ticks r (c, k) evs). js_le (Fin v) (overallTraining q))"
  shows "sorted_wrt js_le (overallHistory (trace r (c, k) evs))"
  using assms
proof (induction evs arbitrary: c k v)
  case Nil
  then show ?case by (simp add: overallHistory_def)
next
  case (Cons e es)
  obtain c' k' where step: "resume r k e c = (c', k')"
    by (cases "resume r k e c")
  obtain tl where tl: "overallHistory (trace r (c', k') es) = overallProgress c' # tl"
    using history_head by blast
  have goal: "sorted_wrt js_le (overallHistory (trace r (c, k) (e # es)))"
    if le: "js_le (overallProgress c) (overallProgress c')"
      and rest: "sorted_wrt js_le (overallHistory (trace r (c', k') es))"
  proof -
    have "overallHistory (trace r (c, k) (e # es)) = overallProgress c # overallProgress c' # tl"
      by (simp only: history_Cons step tl)
    moreover from rest tl have "sorted_wrt js_le (overallProgress c' # tl)" by simp
    ultimately show ?thesis
      using le sorted_wrt_js_le_Cons [of "overallProgress c" "overallProgress c'" tl] by simp
  qed
  show ?case
  proof (cases "tickOf k e")
    case Nil
    have ts: "ticks r (c, k) (e # es) = ticks r (c', k') es"
      using Nil step by simp
    from Cons.prems(3) have p3: "sorted_wrt js_le (Fin 0 # ticks r (c', k') es)"
      by (simp only: ts)
    from Cons.prems(4)
    have old: "polling k \<longrightarrow> (\<forall>q \<in> set (ticks r (c', k') es). js_le (Fin v) (overallTraining q))"
      by (simp only: ts)
    from resume_no_tick [OF Cons.prems(1,2) Nil step]
    obtain v' where v': "overallProgress c' = Fin v'" "v \<le> v'" "capped k' v'"
      "polling k' \<longrightarrow> (polling k \<and> v' = v) \<or> v' \<le> 25"
      by (cases "overallProgress c'") auto
    have p4: "polling k' \<longrightarrow> (\<forall>q \<in> set (ticks r (c', k') es). js_le (Fin v') (overallTraining q))"
    proof (intro impI ballI)
      fix q
      assume pk: "polling k'" and q: "q \<in> set (ticks r (c', k') es)"
      from v'(4) pk consider "polling k" "v' = v" | "v' \<le> 25" by blast
      then show "js_le (Fin v') (overallTraining q)"
      proof cases
        case 1
        with old q show ?thesis by simp
      next
        case 2
        from p3 q have "js_le (Fin 0) q" by auto
        then show ?thesis using 2 by (rule overallTraining_floor)
      qed
    qed
    from Cons.IH [OF v'(1) v'(3) p3 p4]
    have "sorted_wrt js_le (overallHistory (trace r (c', k') es))" .
    moreover from Cons.prems(1) v'(1,2) have "js_le (overallProgress c) (overallProgress c')"
      by simp
    ultimately show ?thesis by (rule goal [rotated])
  next
    case (Cons q qs)
    then obtain j st raw where k: "k = PollFetch j st" and e: "e = StatusResponse (Json raw)"
      and q: "q = clampPercent (raw_percent raw)" and qs: "qs = []"
      by (cases "(k, e)" rule: tickOf.cases) auto
    have ts: "ticks r (c, k) (e # es) = q # ticks r (c', k') es"
      using Cons qs step by simp
    from Cons.prems(3) have s3: "sorted_wrt js_le (Fin 0 # q # ticks r (c', k') es)"
      by (simp only: ts)
    from Cons.prems(4)
    have s4: "polling k \<longrightarrow> (\<forall>q' \<in> set (q # ticks r (c', k') es). js_le (Fin v) (overallTraining q'))"
      by (simp only: ts)
    from s3 have q0: "js_le (Fin 0) q" by simp
    with q clampPercent_cases [of "raw_percent raw"]
    obtain x where x: "q = Fin x" "0 \<le> x" "x \<le> 100" by auto
    from step k e have step': "resume r (PollFetch j st) (StatusResponse (Json raw)) c = (c', k')"
      by simp
    from x q have cp: "clampPercent (raw_percent raw) = Fin x" by simp
    from resume_tick [OF step' cp x(2,3)]
    obtain v' where v': "overallProgress c' = Fin v'" "25 + x / 100 * 35 \<le> v'" "capped k' v'"
      "polling k' \<longrightarrow> v' = 25 + x / 100 * 35"
      by (cases "overallProgress c'") auto
    from s4 k x have "js_le (Fin v) (overallTraining (Fin x))" by simp
    then have vx: "v \<le> 25 + x / 100 * 35" by (simp add: overallTraining_Fin)
    have p4: "polling k' \<longrightarrow> (\<forall>q' \<in> set (ticks r (c', k') es). js_le (Fin v') (overallTraining q'))"
    proof (intro impI ballI)
      fix q'
      assume pk: "polling k'" and q': "q' \<in> set (ticks r (c', k') es)"
      from s3 q' x have "js_le (Fin x) q'" by auto
      then have "js_le (overallTraining (Fin x)) (overallTraining q')"
        by (rule overallTraining_mono)
      with v'(4) pk show "js_le (Fin v') (overallTraining q')"
        by (simp add: overallTraining_Fin)
    qed
    from s3 have p3: "sorted_wrt js_le (Fin 0 # ticks r (c', k') es)" by auto
    from Cons.IH [OF v'(1) v'(3) p3 p4]
    have "sorted_wrt js_le (overallHistory (trace r (c', k') es))" .
    moreover from Cons.prems(1) v'(1,2) vx have "js_le (overallProgress c) (overallProgress c')"
      by simp
    ultimately show ?thesis by (rule goal [rotated])
  qed
qed

lemma run_start:
  assumes "runGenerationPipeline ds n c0 = (c, r, k)"
  shows "overallProgress c = Fin 0 \<and> capped k 0 \<and> \<not> polling k"
  using assms
  by (auto simp: runGenerationPipeline_def preprocessingHead_def Let_def split: if_splits)

text \<open>
  Claim C9, as amended. A run starts with overall progress 0, and along any sequence of
  events that resume it the overall progress never decreases, provided the percent
  values the poller passes on from the backend (after clamping) are numbers and never
  decrease. Nothing in the driver compares a tick with the value it replaces: a tick
  sets overall progress to \<open>25 + percent / 100 * 35\<close>.
\<close>

theorem overall_monotone_when_backend_is:
  "runGenerationPipeline ds n c0 = (c, r, k) \<and> sorted_wrt js_le (Fin 0 # ticks r (c, k) evs) \<longrightarrow>
     overallProgress c = Fin 0 \<and> sorted_wrt js_le (overallHistory (trace r (c, k) evs))"
proof
  assume h: "runGenerationPipeline ds n c0 = (c, r, k) \<and>
    sorted_wrt js_le (Fin 0 # ticks r (c, k) evs)"
  with run_start [of ds n c0 c r k]
  have s: "overallProgress c = Fin 0" "capped k 0" "\<not> polling k" by simp_all
  from s(3) have "polling k \<longrightarrow> (\<forall>q \<in> set (ticks r (c, k) evs). js_le (Fin 0) (overallTraining q))"
    by simp
  from history_sorted [OF s(1) s(2) _ this] h s(1)
  show "overallProgress c = Fin 0 \<and> sorted_wrt js_le (overallHistory (trace r (c, k) evs))"
    by simp
qed

theorem overall_monotone_when_backend_is_witness:
  "runGenerationPipeline (Some ''d1'') (Fin 1000) mounted = (fst started, firstRun, snd started) \<and>
   ticks firstRun started backendGoesForward = [Fin 40, Fin 80, Fin 100] \<and>
   sorted_wrt js_le (Fin 0 # ticks firstRun started backendGoesForward) \<and>
   overallProgress (fst started) = Fin 0 \<and>
   sorted_wrt js_le (overallHistory (trace firstRun started backendGoesForward))"
proof -
  have run: "runGenerationPipeline (Some ''d1'') (Fin 1000) mounted
      = (fst started, firstRun, snd started)"
    by (simp add: started_def firstRun_def)
  have ts: "ticks firstRun (fst started, snd started) backendGoesForward = [Fin 40, Fin 80, Fin 100]"
    by (simp add: scenario_defs step_defs Let_def numeral_eq_Suc)
  then have sorted: "sorted_wrt js_le (Fin 0 # ticks firstRun (fst started, snd started) backendGoesForward)"
    by simp
  from overall_monotone_when_backend_is
    [of "Some ''d1''" "Fin 1000" mounted "fst started" firstRun "snd started" backendGoesForward]
    run sorted ts
  show ?thesis by simp
qed

text \<open>
  Claim C9 as stated fails: when the backend reports 80 percent and then 40 percent
  during training, overall progress goes from 53 back to 39.
\<close>

theorem overall_progress_decreases:
  "overallHistory (trace firstRun started backendGoesBack)
     = [Fin 0, Fin 0, Fin 5, Fin 10, Fin 15, Fin 20, Fin 25, Fin 25, Fin 25, Fin 53, Fin 53, Fin 39] \<and>
   \<not> sorted_wrt js_le (overallHistory (trace firstRun started backendGoesBack))"
proof -
  have h: "overallHistory (trace firstRun started backendGoesBack)
     = [Fin 0, Fin 0, Fin 5, Fin 10, Fin 15, Fin 20, Fin 25, Fin 25, Fin 25, Fin 53, Fin 53, Fin 39]"
    by (simp add: scenario_defs step_defs Let_def numeral_eq_Suc overallHistory_def)
  then show ?thesis by simp
qed

lemma length_mapi: "length (mapi f xs) = length xs"
  by (simp add: mapi_def)

lemma nth_mapi: "i < length xs \<Longrightarrow> mapi f xs ! i = f (xs ! i) i"
  by (simp add: mapi_def nth_enumerate_eq)

lemma status_setStatus: "map status (steps (setStatus k st c)) = (map status (steps c))[k := st]"
  by (rule nth_equalityI) (auto simp: setStatus_def length_mapi nth_mapi nth_list_update)

lemma progress_setStatus: "map progress (steps (setStatus k st c)) = map progress (steps c)"
  by (rule nth_equalityI) (auto simp: setStatus_def length_mapi nth_mapi)

lemma resume_Finished: "resume r Finished e c = (c, Finished)"
  by (cases e) simp_all

lemma resumes_Finished: "resumes r (c, Finished) evs = (c, Finished)"
  by (induction evs) (simp_all add: resume_Finished)

text \<open>
  Claim C5, as amended. When the training request does not settle to a parsed body (the
  fetch rejects, the response is not ok, the body is not JSON or is \<open>null\<close>), step 1 is
  marked as error, nothing but the status of that step changes, and the run has
  returned: no event resumes it, so no poll and no later phase starts. When the request
  settles to a body, the run does
  not fail: the job id is the body's \<open>job_id\<close> if that is a string and the empty string
  otherwise, it is stored in \<open>jobIdRef\<close>, and (unless the run was aborted) the poller
  sends its first status fetch for it.
\<close>

theorem training_post_outcomes:
  "(\<not> parsed resp \<longrightarrow>
      resume r (TrainingPost m d) (TrainResponse resp) c = (setStatus 1 Error c, Finished) \<and>
      map status (steps (setStatus 1 Error c)) = (map status (steps c))[1 := Error] \<and>
      map progress (steps (setStatus 1 Error c)) = map progress (steps c) \<and>
      overallProgress (setStatus 1 Error c) = overallProgress c \<and>
      (setStatus 1 Error c)\<lparr>steps := steps c\<rparr> = c \<and>
      resumes r (setStatus 1 Error c, Finished) evs = (setStatus 1 Error c, Finished)) \<and>
   (\<not> abortRef c \<longrightarrow>
      resume r (TrainingPost m d) (TrainResponse (Json \<lparr>job_id = JString s\<rparr>)) c
        = (c\<lparr>jobIdRef := Some s\<rparr>, PollFetch s \<lparr>errors = 0, seenRunning = True\<rparr>) \<and>
      ((\<forall>s. v \<noteq> JString s) \<longrightarrow>
         resume r (TrainingPost m d) (TrainResponse (Json \<lparr>job_id = v\<rparr>)) c
           = (c\<lparr>jobIdRef := Some ''''\<rparr>, PollFetch '''' \<lparr>errors = 0, seenRunning = True\<rparr>)))"
proof (intro conjI impI)
  assume "\<not> parsed resp"
  then show "resume r (TrainingPost m d) (TrainResponse resp) c = (setStatus 1 Error c, Finished)"
    by (cases resp) (simp_all add: afterTrainPost_def)
next
  show "map status (steps (setStatus 1 Error c)) = (map status (steps c))[1 := Error]"
    by (rule status_setStatus)
next
  show "map progress (steps (setStatus 1 Error c)) = map progress (steps c)"
    by (rule progress_setStatus)
next
  show "overallProgress (setStatus 1 Error c) = overallProgress c"
    by (simp add: setStatus_def)
next
  show "(setStatus 1 Error c)\<lparr>steps := steps c\<rparr> = c"
    by (simp add: setStatus_def)
next
  show "resumes r (setStatus 1 Error c, Finished) evs = (setStatus 1 Error c, Finished)"
    by (rule resumes_Finished)
next
  assume "\<not> abortRef c"
  then show "resume r (TrainingPost m d) (TrainResponse (Json \<lparr>job_id = JString s\<rparr>)) c
        = (c\<lparr>jobIdRef := Some s\<rparr>, PollFetch s \<lparr>errors = 0, seenRunning = True\<rparr>)"
    by (simp add: afterTrainPost_def pollTop_def poll_init_def trainingOpts_def)
next
  assume "\<not> abortRef c" and "\<forall>s. v \<noteq> JString s"
  then show "resume r (TrainingPost m d) (TrainResponse (Json \<lparr>job_id = v\<rparr>)) c
           = (c\<lparr>jobIdRef := Some ''''\<rparr>, PollFetch '''' \<lparr>errors = 0, seenRunning = True\<rparr>)"
    by (cases v) (simp_all add: afterTrainPost_def pollTop_def poll_init_def trainingOpts_def)
qed

lemma awaitingTrainPost_state:
  "snd (resumes firstRun started throughPreprocessing) = TrainingPost ''adsgan'' ''d1''"
  "map status (steps awaitingTrainPost) = [Completed, Running, Pending, Pending]"
  "\<not> abortRef awaitingTrainPost"
  by (simp_all add: awaitingTrainPost_def scenario_defs step_defs Let_def numeral_eq_Suc)

theorem training_post_outcomes_witness:
  "\<not> parsed (NotOk :: train_body response) \<and> \<not> abortRef awaitingTrainPost \<and>
   resume firstRun (TrainingPost ''adsgan'' ''d1'') (TrainResponse NotOk) awaitingTrainPost
     = (setStatus 1 Error awaitingTrainPost, Finished) \<and>
   map status (steps (setStatus 1 Error awaitingTrainPost)) = [Completed, Error, Pending, Pending] \<and>
   resumes firstRun (setStatus 1 Error awaitingTrainPost, Finished)
       [StatusResponse (Json (payload ''completed'' 100)), TimerFired]
     = (setStatus 1 Error awaitingTrainPost, Finished) \<and>
   resume firstRun (TrainingPost ''adsgan'' ''d1'') (TrainResponse (Json \<lparr>job_id = JString ''j1''\<rparr>))
       awaitingTrainPost
     = (awaitingTrainPost\<lparr>jobIdRef := Some ''j1''\<rparr>,
        PollFetch ''j1'' \<lparr>errors = 0, seenRunning = True\<rparr>) \<and>
   resume firstRun (TrainingPost ''adsgan'' ''d1'') (TrainResponse (Json \<lparr>job_id = JNull\<rparr>))
       awaitingTrainPost
     = (awaitingTrainPost\<lparr>jobIdRef := Some ''''\<rparr>,
        PollFetch '''' \<lparr>errors = 0, seenRunning = True\<rparr>)"
proof -
  have np: "\<not> parsed (NotOk :: train_body response)" by simp
  have nn: "\<forall>s. JNull \<noteq> JString s" by simp
  from training_post_outcomes [of NotOk firstRun "''adsgan''" "''d1''" awaitingTrainPost
      "[StatusResponse (Json (payload ''completed'' 100)), TimerFired]" "''j1''" JNull]
    np nn awaitingTrainPost_state(2,3)
  show ?thesis by simp
qed

text \<open>
  Claim C5 as stated fails: a success response whose body has no \<open>job_id\<close> does not make
  the run fail. The run stores the empty job id and its poller sends a status fetch for
  it; step 1 is still running.
\<close>

theorem missing_job_id_is_polled:
  "snd (resumes firstRun started throughPreprocessing) = TrainingPost ''adsgan'' ''d1'' \<and>
   resume firstRun (TrainingPost ''adsgan'' ''d1'') (TrainResponse (Json \<lparr>job_id = JUndefined\<rparr>))
       awaitingTrainPost
     = (awaitingTrainPost\<lparr>jobIdRef := Some ''''\<rparr>,
        PollFetch '''' \<lparr>errors = 0, seenRunning = True\<rparr>) \<and>
   map status (steps (awaitingTrainPost\<lparr>jobIdRef := Some ''''\<rparr>))
     = [Completed, Running, Pending, Pending]"
proof -
  have "resume firstRun (TrainingPost ''adsgan'' ''d1'') (TrainResponse (Json \<lparr>job_id = JUndefined\<rparr>))
       awaitingTrainPost
     = (awaitingTrainPost\<lparr>jobIdRef := Some ''''\<rparr>,
        PollFetch '''' \<lparr>errors = 0, seenRunning = True\<rparr>)"
    using awaitingTrainPost_state(3)
    by (simp add: afterTrainPost_def pollTop_def poll_init_def trainingOpts_def)
  with awaitingTrainPost_state(1,2) show ?thesis by simp
qed

text \<open>
  Claim C4, evaluated on the code. The training poll has returned \<open>completed\<close> and the
  run re-fetches the status of job \<open>j1\<close>. When that fetch fails (the response is not ok,
  or the network call rejects), the error is caught and logged, step 1 stays completed,
  step 2 becomes running and the generation request is sent. A re-check that reads
  another status than \<open>completed\<close> does mark step 1 as error and ends the run.
\<close>

theorem failed_recheck_starts_generation:
  "snd (resumes firstRun started trainingCompleted) = SanityFetch (Some ''j1'') \<and>
   snd (resumes firstRun started (trainingCompleted @ [StatusResponse NotOk]))
     = GenerationGet (Some ''j1'') (Fin 1000) \<and>
   map status (steps (fst (resumes firstRun started (trainingCompleted @ [StatusResponse NotOk]))))
     = [Completed, Completed, Running, Pending] \<and>
   snd (resumes firstRun started (trainingCompleted @ [StatusResponse NetworkError]))
     = GenerationGet (Some ''j1'') (Fin 1000) \<and>
   map status (steps (fst (resumes firstRun started
       (trainingCompleted @ [StatusResponse NetworkError]))))
     = [Completed, Completed, Running, Pending] \<and>
   snd (resumes firstRun started
       (trainingCompleted @ [StatusResponse (Json (payload ''running'' 90))])) = Finished \<and>
   map status (steps (fst (resumes firstRun started
       (trainingCompleted @ [StatusResponse (Json (payload ''running'' 90))]))))
     = [Completed, Error, Pending, Pending]"
  by (simp add: scenario_defs step_defs Let_def numeral_eq_Suc)

text \<open>
  Claim C10, evaluated on the code. In a run in which every request succeeds, step 3
  (validation) is pending at every state up to the end of its loop and then completed:
  it is never running. The run ends with step 2 (generation) still running.
\<close>

theorem validation_is_never_running:
  "statusHistory 3 (trace firstRun started successfulRun)
     = replicate 18 Pending @ [Completed, Completed] \<and>
   Running \<notin> set (statusHistory 3 (trace firstRun started successfulRun)) \<and>
   resumes firstRun started successfulRun = last (trace firstRun started successfulRun) \<and>
   snd (resumes firstRun started successfulRun) = Finished \<and>
   map status (steps (fst started)) = [Running, Pending, Pending, Pending] \<and>
   map status (steps (fst (resumes firstRun started successfulRun)))
     = [Completed, Completed, Running, Completed]"
  by (simp add: scenario_defs step_defs statusHistory_def Let_def numeral_eq_Suc)

section \<open>What the driver writes, and where it stops\<close>



lemma progress_setRunning:
  "map progress (steps (setRunning k c)) = (map progress (steps c))[k := Fin 0]"
  by (rule nth_equalityI) (auto simp: setRunning_def length_mapi nth_mapi nth_list_update)


























end
